theory Spec2Isabelle
  imports Complex_Main "HOL-Library.Log_Nat"
begin

section \<open>Python values\<close>

text \<open>
  The notebook "Bayesian Posterior Analysis: Proportions" defines one function,
  \<^verbatim>\<open>bernoulli_beta_credible_interval(M, N, a=1, b=1, C=.95)\<close>, and runs a
  simulation in top-level cells. Both call \<^verbatim>\<open>scipy.stats.beta\<close>, which is not part
  of the repository and is a parameter of every definition below.

  Python is dynamically typed, and the function tests the types of its arguments, so the
  arguments are values that carry their type. A Python \<^verbatim>\<open>int\<close> is unbounded
  (\<^typ>\<open>int\<close>). A Python \<^verbatim>\<open>float\<close> is an IEEE 754 double: a finite number, an
  infinity or NaN. \<open>Finite x\<close> is the double of value \<open>x\<close>; the sign of a zero is
  not kept (\<^verbatim>\<open>-0.0\<close> and \<^verbatim>\<open>0.0\<close> compare equal and add alike). The draws of the
  simulation, numbers between 0 and 1, are kept as reals.
  \<open>Obj t\<close> is an object of any type \<open>t\<close> other than exactly \<^verbatim>\<open>int\<close> or
  \<^verbatim>\<open>float\<close> (a \<^verbatim>\<open>str\<close>, \<^verbatim>\<open>None\<close>, a \<^verbatim>\<open>bool\<close>, ...), which is
  all that \<^verbatim>\<open>type(x) is not int\<close> and \<^verbatim>\<open>type(x) is not float\<close> look at.
  The prior parameters \<^verbatim>\<open>a\<close> and \<^verbatim>\<open>b\<close> are taken to be ints or floats.
\<close>

datatype pyfloat = Finite real | PosInf | NegInf | NaN

datatype pynum = PyInt int | PyFloat pyfloat

datatype pyval = Num pynum | Obj string

datatype error = TypeError string | ValueError string | OverflowError string

subsection \<open>Rounding to a double\<close>

text \<open>Rounding to the nearest integer, a tie to the even one.\<close>

definition round_even :: "real \<Rightarrow> int" where
  "round_even r =
     (let f = \<lfloor>r\<rfloor>; d = r - of_int f
      in if d < 1 / 2 then f else if 1 / 2 < d then f + 1 else if even f then f else f + 1)"

text \<open>
  Rounding a real number to the nearest number with a significand of 53 bits and an
  exponent that is not below that of the subnormal doubles, a tie to the even
  significand. The number is counted in units of \<open>2\<^sup>-\<^sup>1\<^sup>0\<^sup>7\<^sup>4\<close>, the smallest positive
  double: \<open>shift_of y\<close> is the count of low bits of \<open>y\<close> units that do not fit
  into 53, and \<open>round_units\<close> rounds them away.
\<close>

definition shift_of :: "real \<Rightarrow> nat" where
  "shift_of y = nat (bitlen \<lfloor>\<bar>y\<bar>\<rfloor> - 53)"

definition round_units :: "real \<Rightarrow> real" where
  "round_units y = of_int (round_even (y / 2 ^ shift_of y)) * 2 ^ shift_of y"

definition round_double :: "real \<Rightarrow> real" where
  "round_double x = round_units (x * 2 ^ 1074) / 2 ^ 1074"

text \<open>The double that a float operation returns for the exact result \<open>x\<close>.\<close>

definition to_float :: "real \<Rightarrow> pyfloat" where
  "to_float x =
     (let y = round_double x
      in if 2 ^ 1024 \<le> y then PosInf else if y \<le> - (2 ^ 1024) then NegInf else Finite y)"

subsection \<open>Arithmetic and comparison\<close>

fun fneg :: "pyfloat \<Rightarrow> pyfloat" where
  "fneg (Finite x) = Finite (- x)"
| "fneg PosInf = NegInf"
| "fneg NegInf = PosInf"
| "fneg NaN = NaN"

fun fadd :: "pyfloat \<Rightarrow> pyfloat \<Rightarrow> pyfloat" where
  "fadd NaN y = NaN"
| "fadd x NaN = NaN"
| "fadd (Finite x) (Finite y) = to_float (x + y)"
| "fadd PosInf NegInf = NaN"
| "fadd NegInf PosInf = NaN"
| "fadd PosInf y = PosInf"
| "fadd x PosInf = PosInf"
| "fadd NegInf y = NegInf"
| "fadd x NegInf = NegInf"

definition fsub :: "pyfloat \<Rightarrow> pyfloat \<Rightarrow> pyfloat" where
  "fsub x y = fadd x (fneg y)"

text \<open>\<^verbatim>\<open>x / 2\<close> for a float \<open>x\<close>; the int 2 is the double 2.0.\<close>

fun fdiv2 :: "pyfloat \<Rightarrow> pyfloat" where
  "fdiv2 (Finite x) = to_float (x / 2)"
| "fdiv2 x = x"

text \<open>\<^verbatim>\<open>x < y\<close>, \<^verbatim>\<open>x <= y\<close> and \<^verbatim>\<open>x == y\<close>: every comparison with NaN is false.\<close>

fun fl_less :: "pyfloat \<Rightarrow> pyfloat \<Rightarrow> bool" where
  "fl_less NaN y = False"
| "fl_less x NaN = False"
| "fl_less (Finite x) (Finite y) = (x < y)"
| "fl_less NegInf NegInf = False"
| "fl_less NegInf y = True"
| "fl_less x NegInf = False"
| "fl_less PosInf y = False"
| "fl_less x PosInf = True"

fun fl_le :: "pyfloat \<Rightarrow> pyfloat \<Rightarrow> bool" where
  "fl_le NaN y = False"
| "fl_le x NaN = False"
| "fl_le (Finite x) (Finite y) = (x \<le> y)"
| "fl_le NegInf y = True"
| "fl_le x PosInf = True"
| "fl_le x y = False"


text \<open>
  An int that meets a float in \<^verbatim>\<open>+\<close> or \<^verbatim>\<open>-\<close> is converted to a double first,
  correctly rounded; an int whose rounding is beyond the largest double raises.
\<close>

definition int_to_float :: "int \<Rightarrow> error + pyfloat" where
  "int_to_float i =
     (case to_float (of_int i) of
        Finite y \<Rightarrow> Inr (Finite y)
      | _ \<Rightarrow> Inl (OverflowError ''int too large to convert to float''))"

fun as_double :: "pynum \<Rightarrow> error + pyfloat" where
  "as_double (PyInt i) = int_to_float i"
| "as_double (PyFloat x) = Inr x"

text \<open>\<^verbatim>\<open>x + y\<close> and \<^verbatim>\<open>x - y\<close> on numbers: an int when both are ints, a float otherwise.\<close>

fun py_add :: "pynum \<Rightarrow> pynum \<Rightarrow> error + pynum" where
  "py_add (PyInt i) (PyInt j) = Inr (PyInt (i + j))"
| "py_add x y =
     (case as_double x of
        Inl e \<Rightarrow> Inl e
      | Inr f \<Rightarrow> (case as_double y of Inl e \<Rightarrow> Inl e | Inr g \<Rightarrow> Inr (PyFloat (fadd f g))))"

fun py_sub :: "pynum \<Rightarrow> pynum \<Rightarrow> error + pynum" where
  "py_sub (PyInt i) (PyInt j) = Inr (PyInt (i - j))"
| "py_sub x y =
     (case as_double x of
        Inl e \<Rightarrow> Inl e
      | Inr f \<Rightarrow> (case as_double y of Inl e \<Rightarrow> Inl e | Inr g \<Rightarrow> Inr (PyFloat (fsub f g))))"

text \<open>
  Comparing two numbers: an int and a float are compared by value, with no
  conversion and no rounding.
\<close>

fun exact_value :: "pynum \<Rightarrow> pyfloat" where
  "exact_value (PyInt i) = Finite (of_int i)"
| "exact_value (PyFloat x) = x"

definition py_lt :: "pynum \<Rightarrow> pynum \<Rightarrow> bool" where
  "py_lt x y = fl_less (exact_value x) (exact_value y)"

definition py_le :: "pynum \<Rightarrow> pynum \<Rightarrow> bool" where
  "py_le x y = fl_le (exact_value x) (exact_value y)"

text \<open>\<^verbatim>\<open>type(x) is int\<close> and \<^verbatim>\<open>type(x) is float\<close>.\<close>

fun type_is_int :: "pyval \<Rightarrow> bool" where
  "type_is_int (Num (PyInt i)) = True"
| "type_is_int v = False"

fun type_is_float :: "pyval \<Rightarrow> bool" where
  "type_is_float (Num (PyFloat x)) = True"
| "type_is_float v = False"

text \<open>
  The number held by a value. Both are read only behind the type test that
  guarantees the constructor; the second equation is never reached from the code.
\<close>

fun as_int :: "pyval \<Rightarrow> int" where
  "as_int (Num (PyInt i)) = i"
| "as_int v = 0"

fun as_float :: "pyval \<Rightarrow> pyfloat" where
  "as_float (Num (PyFloat x)) = x"
| "as_float v = NaN"

section \<open>The credible interval\<close>

text \<open>
  \<^verbatim>\<open>beta.ppf(q, a, b)\<close>, the quantile function of the Beta distribution with shape
  parameters \<open>a\<close> and \<open>b\<close>, supplied by the library. It is handed the numbers the
  function computed, ints or floats, and is taken to return a float, which may be NaN,
  and not to raise.
\<close>

type_synonym quantile = "pyfloat \<Rightarrow> pynum \<Rightarrow> pynum \<Rightarrow> pyfloat"

text \<open>
  The block under \<^verbatim>\<open># Error checking\<close>: the \<^verbatim>\<open>if\<close>/\<^verbatim>\<open>elif\<close> chain, in the
  source's order; \<open>None\<close> when no branch raises. \<^verbatim>\<open>C > 1\<close> is \<^verbatim>\<open>1 < C\<close>.
\<close>

definition error_checking :: "pyval \<Rightarrow> pyval \<Rightarrow> pynum \<Rightarrow> pynum \<Rightarrow> pyval \<Rightarrow> error option" where
  "error_checking M N a b C =
     (if \<not> type_is_int M \<or> \<not> type_is_int N then
        Some (TypeError ''M, N must both be integers'')
      else if as_int M < 0 \<or> as_int N < as_int M then
        Some (ValueError ''M, N must be non-negative, and N >= M'')
      else if py_le a (PyInt 0) \<or> py_le b (PyInt 0) then
        Some (ValueError ''Cannot have negative prior parameters!'')
      else if \<not> type_is_float C then
        Some (TypeError ''C must be numeric'')
      else if py_lt (PyFloat (as_float C)) (PyInt 0) \<or> py_lt (PyInt 1) (PyFloat (as_float C)) then
        Some (ValueError ''C must be interpretable as a probability'')
      else None)"

text \<open>
  \<^verbatim>\<open>post = (a + M, b + N - M)\<close>, evaluated left to right; \<^verbatim>\<open>b + N - M\<close> is
  \<^verbatim>\<open>(b + N) - M\<close>.
\<close>

definition post :: "pyval \<Rightarrow> pyval \<Rightarrow> pynum \<Rightarrow> pynum \<Rightarrow> error + pynum \<times> pynum" where
  "post M N a b =
     (case py_add a (PyInt (as_int M)) of
        Inl e \<Rightarrow> Inl e
      | Inr p0 \<Rightarrow>
          (case py_add b (PyInt (as_int N)) of
             Inl e \<Rightarrow> Inl e
           | Inr bn \<Rightarrow>
               (case py_sub bn (PyInt (as_int M)) of
                  Inl e \<Rightarrow> Inl e
                | Inr p1 \<Rightarrow> Inr (p0, p1))))"

text \<open>\<^verbatim>\<open>alpha = (1 - C)/2\<close>, for the float \<open>C\<close>.\<close>

definition tail_mass :: "pyfloat \<Rightarrow> pyfloat" where
  "tail_mass C = fdiv2 (fsub (Finite 1) C)"

definition bernoulli_beta_credible_interval ::
  "quantile \<Rightarrow> pyval \<Rightarrow> pyval \<Rightarrow> pynum \<Rightarrow> pynum \<Rightarrow> pyval \<Rightarrow> error + pyfloat \<times> pyfloat" where
  "bernoulli_beta_credible_interval ppf M N a b C =
     (case error_checking M N a b C of
        Some e \<Rightarrow> Inl e
      | None \<Rightarrow>
          (case post M N a b of
             Inl e \<Rightarrow> Inl e
           | Inr p \<Rightarrow>
               (let alpha = tail_mass (as_float C)
                in Inr (ppf alpha (fst p) (snd p),
                        ppf (fsub (Finite 1) alpha) (fst p) (snd p)))))"

text \<open>
  The parameter list \<^verbatim>\<open>(M, N, a=1, b=1, C=.95)\<close>: an argument the caller leaves out
  (\<open>None\<close>) is bound to its default. The literal \<^verbatim>\<open>.95\<close> is the double nearest to
  95/100.
\<close>

definition call_bernoulli_beta_credible_interval ::
  "quantile \<Rightarrow> pyval \<Rightarrow> pyval \<Rightarrow> pynum option \<Rightarrow> pynum option \<Rightarrow> pyval option
     \<Rightarrow> error + pyfloat \<times> pyfloat" where
  "call_bernoulli_beta_credible_interval ppf M N a b C =
     bernoulli_beta_credible_interval ppf M N
       (case a of None \<Rightarrow> PyInt 1 | Some x \<Rightarrow> x)
       (case b of None \<Rightarrow> PyInt 1 | Some x \<Rightarrow> x)
       (case C of None \<Rightarrow> Num (PyFloat (to_float (95 / 100))) | Some x \<Rightarrow> x)"

text \<open>
  What the claims assume of the library's quantile function: at a probability in
  [0, 1] and shape parameters that are finite and positive it returns a number, which
  does not decrease with the probability, and which lies in [0, 1].
\<close>

fun shape_ok :: "pynum \<Rightarrow> bool" where
  "shape_ok (PyInt i) = (0 < i)"
| "shape_ok (PyFloat (Finite x)) = (0 < x)"
| "shape_ok (PyFloat x) = False"

definition quantile_monotone :: "quantile \<Rightarrow> bool" where
  "quantile_monotone ppf \<longleftrightarrow>
     (\<forall>a b p q. shape_ok a \<and> shape_ok b \<and> 0 \<le> p \<and> p \<le> q \<and> q \<le> 1 \<longrightarrow>
        (\<exists>x y. ppf (Finite p) a b = Finite x \<and> ppf (Finite q) a b = Finite y \<and> x \<le> y))"


text \<open>
  The posterior parameters that the function computes are finite and positive.
\<close>

definition posterior_ok :: "pyval \<Rightarrow> pyval \<Rightarrow> pynum \<Rightarrow> pynum \<Rightarrow> bool" where
  "posterior_ok M N a b =
     (case post M N a b of Inl e \<Rightarrow> False | Inr p \<Rightarrow> shape_ok (fst p) \<and> shape_ok (snd p))"

text \<open>
  A quantile function to run the definitions on: that of the uniform distribution,
  which is Beta(1, 1), at every pair of finite positive shape parameters, and NaN at
  any other argument, which is what the library returns for arguments outside its
  domain.
\<close>

fun prob_ok :: "pyfloat \<Rightarrow> bool" where
  "prob_ok (Finite q) = (0 \<le> q \<and> q \<le> 1)"
| "prob_ok x = False"

definition uniform_ppf :: quantile where
  "uniform_ppf q a b = (if prob_ok q \<and> shape_ok a \<and> shape_ok b then q else NaN)"

text \<open>
  The numbers \<^verbatim>\<open>alpha\<close> and \<^verbatim>\<open>1 - alpha\<close> for a float \<open>C\<close> of value \<open>c\<close> in
  [0, 1], where no operation leaves the finite doubles.
\<close>

definition tail_value :: "real \<Rightarrow> real" where
  "tail_value c = round_double (round_double (1 - c) / 2)"

definition upper_value :: "real \<Rightarrow> real" where
  "upper_value c = round_double (1 - tail_value c)"

section \<open>The simulation comparing two proportions\<close>

text \<open>
  The cells
  \<^verbatim>\<open>N = 1000\<close>,
  \<^verbatim>\<open>random_A = beta.rvs(111, 411, size=N)\<close>,
  \<^verbatim>\<open>random_B = beta.rvs(147, 369, size=N)\<close>,
  \<^verbatim>\<open>trial = random_A < random_B\<close>, \<^verbatim>\<open>trial.sum()\<close> and \<^verbatim>\<open>trial.mean()\<close>.

  \<^verbatim>\<open>beta.rvs(a, b, size=N)\<close> is the library's sampler: it draws from a generator, whose
  state \<open>'g\<close> it changes, and returns an array, or raises. Arrays are lists.
\<close>

type_synonym 'g sampler = "real \<Rightarrow> real \<Rightarrow> int \<Rightarrow> 'g \<Rightarrow> error + real list \<times> 'g"

text \<open>\<^verbatim>\<open>random_A < random_B\<close> compares two arrays of one size element by element.\<close>

definition trial :: "real list \<Rightarrow> real list \<Rightarrow> bool list" where
  "trial random_A random_B = map2 (<) random_A random_B"

text \<open>\<^verbatim>\<open>trial.sum()\<close>: \<^verbatim>\<open>True\<close> counts as 1 and \<^verbatim>\<open>False\<close> as 0.\<close>

definition trial_sum :: "bool list \<Rightarrow> nat" where
  "trial_sum t = (\<Sum>x\<leftarrow>t. if x then 1 else 0)"

text \<open>
  \<^verbatim>\<open>trial.mean()\<close>: the sum over the size. On an empty array numpy warns and
  returns NaN, here \<open>None\<close>; it does not raise.
\<close>

definition trial_mean :: "bool list \<Rightarrow> real option" where
  "trial_mean t = (if t = [] then None else Some (real (trial_sum t) / real (length t)))"

text \<open>
  The cells run in order, for any two pairs of shape parameters and any \<open>N\<close>.
  An exception of the sampler ends the run; the cells themselves raise nothing.
\<close>

definition posterior_comparison ::
  "'g sampler \<Rightarrow> real \<times> real \<Rightarrow> real \<times> real \<Rightarrow> int \<Rightarrow> 'g \<Rightarrow> error + real option \<times> 'g" where
  "posterior_comparison rvs A B N g =
     (case rvs (fst A) (snd A) N g of
        Inl e \<Rightarrow> Inl e
      | Inr (random_A, g1) \<Rightarrow>
          (case rvs (fst B) (snd B) N g1 of
             Inl e \<Rightarrow> Inl e
           | Inr (random_B, g2) \<Rightarrow> Inr (trial_mean (trial random_A random_B), g2)))"

text \<open>The notebook's own run: the posteriors Beta(111, 411) and Beta(147, 369), N = 1000.\<close>

definition notebook_simulation :: "'g sampler \<Rightarrow> 'g \<Rightarrow> error + real option \<times> 'g" where
  "notebook_simulation rvs g = posterior_comparison rvs (111, 411) (147, 369) 1000 g"

text \<open>
  A sampler to run the definitions on: the generator state is a tape of numbers drawn
  beforehand, and a call takes the next \<open>n\<close> of them. For \<open>n = 0\<close> it returns
  the empty array, as the library does.
\<close>

definition tape_rvs :: "real list sampler" where
  "tape_rvs a b n tape = Inr (take (nat n) tape, drop (nat n) tape)"

text \<open>The class of the exception a call raised, if it raised one.\<close>

fun error_class :: "error \<Rightarrow> string" where
  "error_class (TypeError msg) = ''TypeError''"
| "error_class (ValueError msg) = ''ValueError''"
| "error_class (OverflowError msg) = ''OverflowError''"

definition raised_class :: "error + 'a \<Rightarrow> string option" where
  "raised_class r = (case r of Inl e \<Rightarrow> Some (error_class e) | Inr v \<Rightarrow> None)"

section \<open>Facts about rounding\<close>

lemma round_even_bounds: "\<lfloor>r\<rfloor> \<le> round_even r" "round_even r \<le> \<lfloor>r\<rfloor> + 1"
  by (simp_all add: round_even_def Let_def)

lemma round_even_of_int [simp]: "round_even (of_int n) = n"
  by (simp add: round_even_def)

lemma round_even_0 [simp]: "round_even 0 = 0"
  using round_even_of_int [of 0] by simp

lemma round_even_ge_int:
  assumes "of_int n \<le> r" shows "n \<le> round_even r"
proof -
  have "n \<le> \<lfloor>r\<rfloor>" using assms by (simp add: le_floor_iff)
  with round_even_bounds(1) [of r] show ?thesis by simp
qed

lemma round_even_le_int:
  assumes "r \<le> of_int n" shows "round_even r \<le> n"
proof (cases "r = of_int n")
  case True then show ?thesis by simp
next
  case False
  with assms have "r < of_int n" by simp
  then have "\<lfloor>r\<rfloor> < n" by (simp add: floor_less_iff)
  with round_even_bounds(2) [of r] show ?thesis by simp
qed

lemma round_even_mono:
  assumes "r \<le> r'" shows "round_even r \<le> round_even r'"
proof (cases "\<lfloor>r\<rfloor> = \<lfloor>r'\<rfloor>")
  case True
  with assms show ?thesis by (auto simp add: round_even_def Let_def)
next
  case False
  with assms have "\<lfloor>r\<rfloor> < \<lfloor>r'\<rfloor>" using floor_mono [of r r'] by simp
  with round_even_bounds(2) [of r] round_even_bounds(1) [of r'] show ?thesis by simp
qed

lemma round_even_near:
  assumes "of_int n - 1 / 2 < r" "r < of_int n + 1 / 2" shows "round_even r = n"
proof (cases "of_int n \<le> r")
  case True
  with assms(2) have "\<lfloor>r\<rfloor> = n" by (simp add: floor_eq_iff)
  with assms(2) show ?thesis by (simp add: round_even_def Let_def)
next
  case False
  with assms(1) have "\<lfloor>r\<rfloor> = n - 1" by (simp add: floor_eq_iff)
  with assms(1) show ?thesis by (simp add: round_even_def Let_def)
qed

lemma round_double_units: "round_double x = round_units (x * 2 ^ 1074) / 2 ^ 1074"
  unfolding round_double_def ..

lemma round_double_shift:
  "round_double x =
     of_int (round_even (x * 2 ^ 1074 / 2 ^ shift_of (x * 2 ^ 1074)))
       * 2 ^ shift_of (x * 2 ^ 1074) / 2 ^ 1074"
  unfolding round_double_def round_units_def ..

lemma shift_of_mono:
  assumes "0 \<le> y" "y \<le> y'" shows "shift_of y \<le> shift_of y'"
proof -
  have "\<lfloor>\<bar>y\<bar>\<rfloor> \<le> \<lfloor>\<bar>y'\<bar>\<rfloor>" using assms by (simp add: floor_mono)
  then have "bitlen \<lfloor>\<bar>y\<bar>\<rfloor> \<le> bitlen \<lfloor>\<bar>y'\<bar>\<rfloor>"
    by (simp add: bitlen_def floorlog_mono)
  then show ?thesis by (simp add: shift_of_def)
qed

lemma below_binade:
  assumes "0 \<le> y" shows "y < 2 ^ (53 + shift_of y)"
proof -
  have "bitlen \<lfloor>\<bar>y\<bar>\<rfloor> \<le> int (53 + shift_of y)"
    by (simp add: shift_of_def)
  then have "\<lfloor>\<bar>y\<bar>\<rfloor> < 2 ^ nat (int (53 + shift_of y))"
    unfolding bitlen_le_iff_power by simp
  then have "\<lfloor>\<bar>y\<bar>\<rfloor> < 2 ^ (53 + shift_of y)"
    unfolding nat_int .
  then have "\<bar>y\<bar> < 2 ^ (53 + shift_of y)"
    by (simp add: floor_less_iff)
  with assms show ?thesis by simp
qed

lemma above_binade:
  assumes "0 \<le> y" "0 < shift_of y" shows "2 ^ (52 + shift_of y) \<le> y"
proof -
  have k: "bitlen \<lfloor>\<bar>y\<bar>\<rfloor> = int (53 + shift_of y)"
    using assms(2) by (simp add: shift_of_def)
  then have "int (53 + shift_of y) \<le> bitlen \<lfloor>\<bar>y\<bar>\<rfloor>" by simp
  then have "2 ^ (nat (int (53 + shift_of y)) - 1) \<le> \<lfloor>\<bar>y\<bar>\<rfloor>"
    unfolding bitlen_ge_iff_power by simp
  then have "2 ^ (52 + shift_of y) \<le> \<lfloor>\<bar>y\<bar>\<rfloor>"
    unfolding nat_int by simp
  then have "2 ^ (52 + shift_of y) \<le> \<bar>y\<bar>"
    by (simp add: le_floor_iff)
  with assms show ?thesis by simp
qed

lemma shift_of_eq:
  assumes "2 ^ (52 + s) \<le> y" "y < 2 ^ (53 + s)" shows "shift_of y = s"
proof -
  have "(0::real) \<le> 2 ^ (52 + s)" by simp
  with assms(1) have y0: "0 \<le> y" by linarith
  then have ay: "\<bar>y\<bar> = y" by simp
  have "\<lfloor>y\<rfloor> < 2 ^ (53 + s)" using assms(2) by (simp add: floor_less_iff)
  then have "\<lfloor>y\<rfloor> < 2 ^ nat (int (53 + s))" unfolding nat_int .
  then have le: "bitlen \<lfloor>y\<rfloor> \<le> int (53 + s)" unfolding bitlen_le_iff_power by simp
  have "2 ^ (52 + s) \<le> \<lfloor>y\<rfloor>" using assms(1) by (simp add: le_floor_iff)
  then have "2 ^ (nat (int (53 + s)) - 1) \<le> \<lfloor>y\<rfloor>" unfolding nat_int by simp
  then have ge: "int (53 + s) \<le> bitlen \<lfloor>y\<rfloor>" unfolding bitlen_ge_iff_power by simp
  from le ge show ?thesis by (simp add: shift_of_def ay)
qed

lemma round_units_upper:
  assumes "0 \<le> y" shows "round_units y \<le> 2 ^ (53 + shift_of y)"
proof -
  have "y / 2 ^ shift_of y \<le> 2 ^ 53"
    using below_binade [OF assms] by (simp add: power_add field_simps)
  then have "y / 2 ^ shift_of y \<le> of_int (2 ^ 53)" by simp
  then have "round_even (y / 2 ^ shift_of y) \<le> 2 ^ 53" by (rule round_even_le_int)
  then have "real_of_int (round_even (y / 2 ^ shift_of y)) \<le> 2 ^ 53"
    by (metis of_int_le_iff of_int_numeral of_int_power)
  then show ?thesis by (simp add: round_units_def power_add)
qed

lemma round_units_lower:
  assumes "0 \<le> y" "0 < shift_of y" shows "2 ^ (52 + shift_of y) \<le> round_units y"
proof -
  have "2 ^ 52 \<le> y / 2 ^ shift_of y"
    using above_binade [OF assms] by (simp add: power_add field_simps)
  then have "of_int (2 ^ 52) \<le> y / 2 ^ shift_of y" by simp
  then have "2 ^ 52 \<le> round_even (y / 2 ^ shift_of y)" by (rule round_even_ge_int)
  then have "2 ^ 52 \<le> real_of_int (round_even (y / 2 ^ shift_of y))"
    by (metis of_int_le_iff of_int_numeral of_int_power)
  then show ?thesis by (simp add: round_units_def power_add)
qed

lemma round_units_mono:
  assumes "0 \<le> y" "y \<le> y'" shows "round_units y \<le> round_units y'"
proof (cases "shift_of y = shift_of y'")
  case True
  have "y / 2 ^ shift_of y' \<le> y' / 2 ^ shift_of y'"
    using assms(2) by (simp add: divide_right_mono)
  then have "round_even (y / 2 ^ shift_of y') \<le> round_even (y' / 2 ^ shift_of y')"
    by (rule round_even_mono)
  then show ?thesis by (simp add: round_units_def True)
next
  case False
  with shift_of_mono [OF assms] have lt: "shift_of y < shift_of y'" by simp
  then have pos: "0 < shift_of y'" by simp
  have y': "0 \<le> y'" using assms by simp
  have "round_units y \<le> 2 ^ (53 + shift_of y)" by (rule round_units_upper [OF assms(1)])
  also have "\<dots> \<le> (2::real) ^ (52 + shift_of y')"
    using lt by (intro power_increasing) simp_all
  also have "\<dots> \<le> round_units y'" by (rule round_units_lower [OF y' pos])
  finally show ?thesis .
qed

lemma round_double_mono:
  assumes "0 \<le> x" "x \<le> x'" shows "round_double x \<le> round_double x'"
proof -
  have "round_units (x * 2 ^ 1074) \<le> round_units (x' * 2 ^ 1074)"
    using assms by (intro round_units_mono) simp_all
  then show ?thesis by (simp add: round_double_units divide_right_mono)
qed

lemma round_units_exact:
  assumes "0 \<le> m" "m < 2 ^ 53"
  shows "round_units (of_int (m * 2 ^ c)) = of_int (m * 2 ^ c)"
proof (cases "m = 0")
  case True then show ?thesis by (simp add: round_units_def)
next
  case False
  with assms have mpos: "0 < m" by simp
  let ?y = "real_of_int (m * 2 ^ c)"
  have "\<bar>?y\<bar> = ?y" using assms(1) by simp
  then have fl: "\<lfloor>\<bar>?y\<bar>\<rfloor> = m * 2 ^ c" by (simp only: floor_of_int)
  have "bitlen m \<le> 53" using assms(2) by (simp add: bitlen_le_iff_power)
  then have "shift_of ?y \<le> c"
    unfolding shift_of_def fl using mpos by simp
  then obtain d where c: "c = shift_of ?y + d" using le_Suc_ex by blast
  have "?y / 2 ^ shift_of ?y = of_int (m * 2 ^ d)"
    by (subst c) (simp add: power_add)
  then have "round_even (?y / 2 ^ shift_of ?y) = m * 2 ^ d" by (simp only: round_even_of_int)
  then have "round_units ?y = of_int (m * 2 ^ d) * 2 ^ shift_of ?y"
    by (simp add: round_units_def)
  also have "\<dots> = ?y" by (subst (2) c) (simp add: power_add)
  finally show ?thesis .
qed

lemma round_double_dyadic:
  assumes "0 \<le> m" "m < 2 ^ 53" "e \<le> 1074"
  shows "round_double (of_int m / 2 ^ e) = of_int m / 2 ^ e"
proof -
  obtain c where c: "1074 = e + c" using assms(3) le_Suc_ex by blast
  have "real_of_int m / 2 ^ e * 2 ^ 1074 = of_int (m * 2 ^ c)"
    by (subst c) (simp add: power_add)
  then have "round_double (of_int m / 2 ^ e) = of_int (m * 2 ^ c) / 2 ^ 1074"
    by (simp add: round_double_units round_units_exact [OF assms(1,2)] del: of_int_mult of_int_power)
  also have "\<dots> = of_int m / 2 ^ e" by (subst c) (simp add: power_add)
  finally show ?thesis .
qed

lemma scale_units: "real_of_int (m * 2 ^ c) * 2 ^ k = of_int (m * 2 ^ (c + k))"
  by (simp add: power_add)

lemma unscale_units: "real_of_int (m * 2 ^ (c + k)) / 2 ^ k = of_int (m * 2 ^ c)"
  by (simp add: power_add)

lemma round_double_int:
  assumes "0 \<le> m" "m < 2 ^ 53"
  shows "round_double (of_int (m * 2 ^ c)) = of_int (m * 2 ^ c)"
  unfolding round_double_units scale_units round_units_exact [OF assms] unscale_units ..

lemma round_double_0 [simp]: "round_double 0 = 0"
  using round_double_dyadic [of 0 0] by simp

lemma round_double_1 [simp]: "round_double 1 = 1"
  using round_double_dyadic [of 1 0] by simp

lemma round_double_half [simp]: "round_double (1 / 2) = 1 / 2"
  using round_double_dyadic [of 1 1] by simp

lemma round_double_binade:
  assumes "2 ^ (52 + s) \<le> x * 2 ^ 1074" "x * 2 ^ 1074 < 2 ^ (53 + s)"
  shows "round_double x = of_int (round_even (x * 2 ^ 1074 / 2 ^ s)) * 2 ^ s / 2 ^ 1074"
  unfolding round_double_shift shift_of_eq [OF assms] ..


section \<open>Facts about float operations\<close>

lemma to_float_finite:
  assumes "- (2 ^ 1024) < round_double x" "round_double x < 2 ^ 1024"
  shows "to_float x = Finite (round_double x)"
  using assms unfolding to_float_def Let_def by (simp only: not_le [symmetric] if_False)

lemma round_double_nonneg: "0 \<le> x \<Longrightarrow> 0 \<le> round_double x"
  using round_double_mono [of 0 x] by simp

lemma round_double_unit:
  assumes "0 \<le> x" "x \<le> 1" shows "0 \<le> round_double x" "round_double x \<le> 1"
  using round_double_mono [of 0 x] round_double_mono [of x 1] assms by simp_all

lemma huge: "(1::real) < 2 ^ 1024" "- (2 ^ 1024) < (0::real)"
  by simp_all

lemma to_float_unit:
  assumes "0 \<le> x" "x \<le> 1" shows "to_float x = Finite (round_double x)"
proof (rule to_float_finite)
  from round_double_unit [OF assms] huge
  show "- (2 ^ 1024) < round_double x" "round_double x < 2 ^ 1024" by linarith+
qed

lemma to_float_mono:
  assumes "0 \<le> x" "x \<le> y" shows "fl_le (to_float x) (to_float y)"
proof -
  have r: "0 \<le> round_double x" "round_double x \<le> round_double y"
    using assms round_double_nonneg round_double_mono by simp_all
  have neg: "- (2 ^ 1024) < round_double x" "- (2 ^ 1024) < round_double y"
    using r huge(2) by linarith+
  show ?thesis
  proof (cases "2 ^ 1024 \<le> round_double y")
    case True
    then have "to_float y = PosInf" unfolding to_float_def Let_def by (simp only: if_True)
    moreover have "to_float x = PosInf \<or> to_float x = Finite (round_double x)"
      using neg(1) unfolding to_float_def Let_def
      by (cases "2 ^ 1024 \<le> round_double x") (simp_all only: if_True if_False not_le [symmetric] simp_thms)
    ultimately show ?thesis by auto
  next
    case False
    then have "round_double y < 2 ^ 1024" by (simp only: not_le)
    with r have "round_double x < 2 ^ 1024" by linarith
    with \<open>round_double y < 2 ^ 1024\<close> neg r(2) show ?thesis
      by (simp only: to_float_finite fl_le.simps)
  qed
qed

lemma round_double_two_1024: "round_double (2 ^ 1024) = 2 ^ 1024"
  using round_double_int [of 1 1024] by (simp only: mult_1 of_int_power of_int_numeral) simp

lemma to_float_overflow:
  assumes "2 ^ 1024 \<le> x" shows "to_float x = PosInf"
proof -
  have "(0::real) \<le> 2 ^ 1024" by simp
  from round_double_mono [OF this assms] have "2 ^ 1024 \<le> round_double x"
    by (simp only: round_double_two_1024)
  then show ?thesis unfolding to_float_def Let_def by (simp only: if_True)
qed

lemma tail_value_bounds:
  assumes "0 \<le> c" "c \<le> 1"
  shows "0 \<le> tail_value c" "tail_value c \<le> 1 / 2" "1 / 2 \<le> upper_value c" "upper_value c \<le> 1"
proof -
  have r: "0 \<le> round_double (1 - c)" "round_double (1 - c) \<le> 1"
    using assms by (simp_all add: round_double_unit)
  show t0: "0 \<le> tail_value c"
    unfolding tail_value_def using r(1) by (intro round_double_nonneg) simp
  have "round_double (round_double (1 - c) / 2) \<le> round_double (1 / 2)"
    using r by (intro round_double_mono) simp_all
  then show t1: "tail_value c \<le> 1 / 2" by (simp add: tail_value_def)
  have "round_double (1 / 2) \<le> round_double (1 - tail_value c)"
    using t1 by (intro round_double_mono) simp_all
  then show "1 / 2 \<le> upper_value c" by (simp add: upper_value_def)
  have "round_double (1 - tail_value c) \<le> round_double 1"
    using t0 t1 by (intro round_double_mono) simp_all
  then show "upper_value c \<le> 1" by (simp add: upper_value_def)
qed

lemma tail_value_antimono:
  assumes "0 \<le> c1" "c1 \<le> c2" "c2 \<le> 1"
  shows "tail_value c2 \<le> tail_value c1" "upper_value c1 \<le> upper_value c2"
proof -
  have "round_double (1 - c2) \<le> round_double (1 - c1)"
    using assms by (intro round_double_mono) simp_all
  moreover have "0 \<le> round_double (1 - c2)"
    using assms by (intro round_double_nonneg) simp
  ultimately have "round_double (round_double (1 - c2) / 2) \<le> round_double (round_double (1 - c1) / 2)"
    by (intro round_double_mono) simp_all
  then show t: "tail_value c2 \<le> tail_value c1" by (simp add: tail_value_def)
  have "c1 \<le> 1" using assms by simp
  from tail_value_bounds(2) [OF assms(1) this] t
  have "round_double (1 - tail_value c1) \<le> round_double (1 - tail_value c2)"
    by (intro round_double_mono) simp_all
  then show "upper_value c1 \<le> upper_value c2" by (simp add: upper_value_def)
qed

lemma tail_mass_value:
  assumes "0 \<le> c" "c \<le> 1"
  shows "tail_mass (Finite c) = Finite (tail_value c)"
proof -
  have a: "to_float (1 - c) = Finite (round_double (1 - c))"
    using assms by (intro to_float_unit) simp_all
  have r: "0 \<le> round_double (1 - c)" "round_double (1 - c) \<le> 1"
    using assms by (simp_all add: round_double_unit)
  have b: "to_float (round_double (1 - c) / 2) = Finite (round_double (round_double (1 - c) / 2))"
    using r by (intro to_float_unit) simp_all
  show ?thesis by (simp add: tail_mass_def fsub_def a b tail_value_def)
qed

lemma upper_mass_value:
  assumes "0 \<le> c" "c \<le> 1"
  shows "fsub (Finite 1) (Finite (tail_value c)) = Finite (upper_value c)"
proof -
  have "to_float (1 - tail_value c) = Finite (round_double (1 - tail_value c))"
    using tail_value_bounds(1,2) [OF assms] by (intro to_float_unit) simp_all
  then show ?thesis by (simp add: fsub_def upper_value_def)
qed

section \<open>Facts about the function\<close>

lemma positive_not_le: "py_lt (PyInt 0) a \<Longrightarrow> \<not> py_le a (PyInt 0)"
proof (cases a)
  case (PyInt i) then show "py_lt (PyInt 0) a \<Longrightarrow> \<not> py_le a (PyInt 0)"
    by (simp add: py_lt_def py_le_def)
next
  case (PyFloat x) then show "py_lt (PyInt 0) a \<Longrightarrow> \<not> py_le a (PyInt 0)"
    by (cases x) (simp_all add: py_lt_def py_le_def)
qed

lemma error_checking_valid:
  assumes "0 \<le> m" "m \<le> n" "py_lt (PyInt 0) a" "py_lt (PyInt 0) b" "0 \<le> c" "c \<le> 1"
  shows "error_checking (Num (PyInt m)) (Num (PyInt n)) a b (Num (PyFloat (Finite c))) = None"
  using assms positive_not_le [OF assms(3)] positive_not_le [OF assms(4)]
  by (simp add: error_checking_def py_lt_def)

lemma credible_interval_valid:
  assumes "0 \<le> m" "m \<le> n" "py_lt (PyInt 0) a" "py_lt (PyInt 0) b" "0 \<le> c" "c \<le> 1"
    and "post (Num (PyInt m)) (Num (PyInt n)) a b = Inr (p0, p1)"
  shows "bernoulli_beta_credible_interval ppf (Num (PyInt m)) (Num (PyInt n)) a b
           (Num (PyFloat (Finite c))) =
         Inr (ppf (Finite (tail_value c)) p0 p1, ppf (Finite (upper_value c)) p0 p1)"
  unfolding bernoulli_beta_credible_interval_def error_checking_valid [OF assms(1-6)] assms(7)
  by (simp add: Let_def tail_mass_value [OF assms(5,6)] upper_mass_value [OF assms(5,6)])

lemma post_int_priors:
  "post (Num (PyInt m)) (Num (PyInt n)) (PyInt i) (PyInt j) =
     Inr (PyInt (i + m), PyInt (j + n - m))"
  by (simp add: post_def)

lemma int_priors_posterior_ok:
  assumes "0 \<le> m" "m \<le> n" "0 < i" "0 < j"
  shows "posterior_ok (Num (PyInt m)) (Num (PyInt n)) (PyInt i) (PyInt j)"
  using assms by (simp add: posterior_ok_def post_int_priors)

lemma uniform_ppf_monotone: "quantile_monotone uniform_ppf"
  by (simp add: quantile_monotone_def uniform_ppf_def)


section \<open>Values of particular operations\<close>

lemma round_double_eval:
  assumes "2 ^ (52 + s) \<le> x * 2 ^ 1074" "x * 2 ^ 1074 < 2 ^ (53 + s)"
    and "of_int n - 1 / 2 < x * 2 ^ 1074 / 2 ^ s" "x * 2 ^ 1074 / 2 ^ s < of_int n + 1 / 2"
  shows "round_double x = of_int n * 2 ^ s / 2 ^ 1074"
  unfolding round_double_binade [OF assms(1,2)] round_even_near [OF assms(3,4)] ..

lemma to_float_dyadic:
  assumes "0 \<le> m" "m < 2 ^ 53" "e \<le> 1074"
  shows "to_float (of_int m / 2 ^ e) = Finite (of_int m / 2 ^ e)"
proof -
  have "real_of_int m < 2 ^ 53"
    using assms(2) by (metis of_int_less_iff of_int_numeral of_int_power)
  then have m: "real_of_int m < 2 ^ 1024" by (rule less_trans) simp
  have "real_of_int m / 2 ^ e \<le> real_of_int m"
    using assms(1) by (simp add: divide_le_eq mult_le_cancel_left1)
  with m have up: "real_of_int m / 2 ^ e < 2 ^ 1024" by linarith
  have "0 \<le> real_of_int m / 2 ^ e" using assms(1) by simp
  with huge(2) have lo: "- (2 ^ 1024) < real_of_int m / 2 ^ e" by linarith
  show ?thesis
    using to_float_finite [of "of_int m / 2 ^ e"] lo up
    unfolding round_double_dyadic [OF assms] by (simp only:)
qed

lemma int_to_float_small:
  assumes "0 \<le> i" "i < 2 ^ 53" shows "int_to_float i = Inr (Finite (of_int i))"
  using to_float_dyadic [OF assms, of 0] by (simp add: int_to_float_def)

lemma int_to_float_overflow:
  assumes "2 ^ 1024 \<le> i"
  shows "int_to_float i = Inl (OverflowError ''int too large to convert to float'')"
proof -
  have "real_of_int (2 ^ 1024) \<le> real_of_int i" using assms by (simp only: of_int_le_iff)
  then have "2 ^ 1024 \<le> real_of_int i" by simp
  then have "to_float (of_int i) = PosInf" by (rule to_float_overflow)
  then show ?thesis by (simp add: int_to_float_def)
qed

lemma round_double_quarters [simp]:
  "round_double (1 / 4) = 1 / 4" "round_double (3 / 4) = 3 / 4"
  "round_double (1 / 8) = 1 / 8" "round_double (7 / 8) = 7 / 8"
  using round_double_dyadic [of 1 2] round_double_dyadic [of 3 2]
    round_double_dyadic [of 1 3] round_double_dyadic [of 7 3] by simp_all

lemma tail_values [simp]:
  "tail_value 0 = 1 / 2" "upper_value 0 = 1 / 2"
  "tail_value 1 = 0" "upper_value 1 = 1"
  "tail_value (1 / 2) = 1 / 4" "upper_value (1 / 2) = 3 / 4"
  "tail_value (3 / 4) = 1 / 8" "upper_value (3 / 4) = 7 / 8"
  by (simp_all add: tail_value_def upper_value_def)

text \<open>The literals \<^verbatim>\<open>.95\<close>, \<^verbatim>\<open>0.1\<close> and \<^verbatim>\<open>1e-20\<close>, and the double 0.975.\<close>

lemma to_float_95: "to_float (95 / 100) = Finite (4278419646001971 / 4503599627370496)"
proof -
  have "round_double (95 / 100) = 4278419646001971 / 4503599627370496"
    using round_double_eval [of 1021 "95 / 100" 8556839292003942] by simp
  with to_float_unit [of "95 / 100"] show ?thesis by simp
qed

lemma to_float_975: "to_float (975 / 1000) = Finite (8782019273372467 / 9007199254740992)"
proof -
  have "round_double (975 / 1000) = 8782019273372467 / 9007199254740992"
    using round_double_eval [of 1021 "975 / 1000" 8782019273372467] by simp
  with to_float_unit [of "975 / 1000"] show ?thesis by simp
qed



text \<open>\<^verbatim>\<open>(1 - .95)/2\<close> is 0.025000000000000022, and 1 minus that is 0.975.\<close>

lemma tail_value_95:
  "tail_value (4278419646001971 / 4503599627370496) = 225179981368525 / 9007199254740992"
proof -
  have a: "round_double (1 - 4278419646001971 / 4503599627370496) = 225179981368525 / 4503599627370496"
    using round_double_dyadic [of 225179981368525 52] by simp
  have b: "round_double (225179981368525 / 4503599627370496 / 2) = 225179981368525 / 9007199254740992"
    using round_double_dyadic [of 225179981368525 53] by simp
  show ?thesis unfolding tail_value_def a b ..
qed

lemma upper_value_95:
  "upper_value (4278419646001971 / 4503599627370496) = 8782019273372467 / 9007199254740992"
proof -
  have "round_double (1 - 225179981368525 / 9007199254740992) = 8782019273372467 / 9007199254740992"
    using round_double_dyadic [of 8782019273372467 53] by simp
  then show ?thesis unfolding upper_value_def tail_value_95 .
qed

text \<open>The steps of \<open>post\<close> for a float prior.\<close>

lemma py_add_float_int:
  assumes "int_to_float j = Inr (Finite y)" "to_float (x + y) = r"
  shows "py_add (PyFloat (Finite x)) (PyInt j) = Inr (PyFloat r)"
  using assms by simp

lemma py_sub_float_int:
  assumes "int_to_float j = Inr (Finite y)" "to_float (x + - y) = r"
  shows "py_sub (PyFloat (Finite x)) (PyInt j) = Inr (PyFloat r)"
  using assms by (simp add: fsub_def)

lemma post_steps:
  assumes "py_add a (PyInt m) = Inr p0" "py_add b (PyInt n) = Inr bn"
    and "py_sub bn (PyInt m) = Inr p1"
  shows "post (Num (PyInt m)) (Num (PyInt n)) a b = Inr (p0, p1)"
  using assms by (simp add: post_def)







lemma tail_mass_half [simp]: "tail_mass (Finite (1 / 2)) = Finite (1 / 4)"
  using tail_mass_value [of "1 / 2"] by simp

lemma upper_mass_half [simp]: "fsub (Finite 1) (Finite (1 / 4)) = Finite (3 / 4)"
  using upper_mass_value [of "1 / 2"] by simp

lemma credible_interval_post_error:
  assumes "0 \<le> m" "m \<le> n" "py_lt (PyInt 0) a" "py_lt (PyInt 0) b" "0 \<le> c" "c \<le> 1"
    and "post (Num (PyInt m)) (Num (PyInt n)) a b = Inl e"
  shows "bernoulli_beta_credible_interval ppf (Num (PyInt m)) (Num (PyInt n)) a b
           (Num (PyFloat (Finite c))) = Inl e"
  unfolding bernoulli_beta_credible_interval_def error_checking_valid [OF assms(1-6)] assms(7)
  by simp

lemma post_float_overflow:
  assumes "2 ^ 1024 \<le> m"
  shows "post (Num (PyInt m)) N (PyFloat f) b =
           Inl (OverflowError ''int too large to convert to float'')"
  by (simp add: post_def int_to_float_overflow [OF assms])

text \<open>\<^verbatim>\<open>0.5 + 3\<close> is 3.5 and \<^verbatim>\<open>(0.5 + 5) - 3\<close> is 2.5.\<close>

lemma post_halves:
  "post (Num (PyInt 3)) (Num (PyInt 5)) (PyFloat (Finite (1 / 2))) (PyFloat (Finite (1 / 2))) =
     Inr (PyFloat (Finite (7 / 2)), PyFloat (Finite (5 / 2)))"
proof -
  have i3: "int_to_float 3 = Inr (Finite 3)" using int_to_float_small [of 3] by simp
  have i5: "int_to_float 5 = Inr (Finite 5)" using int_to_float_small [of 5] by simp
  have a: "to_float (1 / 2 + 3) = Finite (7 / 2)" using to_float_dyadic [of 7 1] by simp
  have b: "to_float (1 / 2 + 5) = Finite (11 / 2)" using to_float_dyadic [of 11 1] by simp
  have c: "to_float (11 / 2 + - 3) = Finite (5 / 2)" using to_float_dyadic [of 5 1] by simp
  show ?thesis
    by (rule post_steps [OF py_add_float_int [OF i3 a] py_add_float_int [OF i5 b]
          py_sub_float_int [OF i3 c]])
qed

section \<open>The result on valid arguments\<close>







section \<open>The errors\<close>

text \<open>
  C3, as the code has it. The checks raise two classes of exception, not one, each with
  a message that names the failed check, and the first check that fails decides: a
  TypeError when M or N is not an int; a ValueError when M < 0 or N < M; a ValueError
  when a <= 0 or b <= 0; a TypeError when C is not of type float, an int included; a
  ValueError when C is a float with C < 0 or C > 1. A NaN passes every comparison, so
  C = NaN is not rejected: the function returns the library's values at NaN.
\<close>

theorem credible_interval_errors:
  "(\<not> type_is_int M \<or> \<not> type_is_int N \<longrightarrow>
      bernoulli_beta_credible_interval ppf M N a b C =
        Inl (TypeError ''M, N must both be integers'')) \<and>
   (m < 0 \<or> n < m \<longrightarrow>
      bernoulli_beta_credible_interval ppf (Num (PyInt m)) (Num (PyInt n)) a b C =
        Inl (ValueError ''M, N must be non-negative, and N >= M'')) \<and>
   (0 \<le> m \<and> m \<le> n \<and> (py_le a (PyInt 0) \<or> py_le b (PyInt 0)) \<longrightarrow>
      bernoulli_beta_credible_interval ppf (Num (PyInt m)) (Num (PyInt n)) a b C =
        Inl (ValueError ''Cannot have negative prior parameters!'')) \<and>
   (0 \<le> m \<and> m \<le> n \<and> \<not> py_le a (PyInt 0) \<and> \<not> py_le b (PyInt 0) \<and> \<not> type_is_float C \<longrightarrow>
      bernoulli_beta_credible_interval ppf (Num (PyInt m)) (Num (PyInt n)) a b C =
        Inl (TypeError ''C must be numeric'')) \<and>
   (0 \<le> m \<and> m \<le> n \<and> \<not> py_le a (PyInt 0) \<and> \<not> py_le b (PyInt 0) \<and>
    (fl_less c (Finite 0) \<or> fl_less (Finite 1) c) \<longrightarrow>
      bernoulli_beta_credible_interval ppf (Num (PyInt m)) (Num (PyInt n)) a b (Num (PyFloat c)) =
        Inl (ValueError ''C must be interpretable as a probability'')) \<and>
   (0 \<le> m \<and> m \<le> n \<and> \<not> py_le a (PyInt 0) \<and> \<not> py_le b (PyInt 0) \<and>
    post (Num (PyInt m)) (Num (PyInt n)) a b = Inr (p0, p1) \<longrightarrow>
      bernoulli_beta_credible_interval ppf (Num (PyInt m)) (Num (PyInt n)) a b (Num (PyFloat NaN)) =
        Inr (ppf NaN p0 p1, ppf NaN p0 p1))"
  by (auto simp add: bernoulli_beta_credible_interval_def error_checking_def py_lt_def
      tail_mass_def fsub_def)

text \<open>
  The four rejected calls of the specification, M = -1 with N = 5, M = 5 with N = 3,
  a = 0, and C = 1.5, each raise a ValueError; a float M, a string C and the int C = 7
  raise a TypeError; C = NaN is accepted.
\<close>

theorem credible_interval_errors_witness:
  "bernoulli_beta_credible_interval uniform_ppf (Num (PyFloat (Finite (5 / 2)))) (Num (PyInt 5))
     (PyInt 1) (PyInt 1) (Num (PyFloat (Finite (1 / 2)))) =
     Inl (TypeError ''M, N must both be integers'') \<and>
   bernoulli_beta_credible_interval uniform_ppf (Num (PyInt (- 1))) (Num (PyInt 5))
     (PyInt 1) (PyInt 1) (Num (PyFloat (Finite (1 / 2)))) =
     Inl (ValueError ''M, N must be non-negative, and N >= M'') \<and>
   bernoulli_beta_credible_interval uniform_ppf (Num (PyInt 5)) (Num (PyInt 3))
     (PyInt 1) (PyInt 1) (Num (PyFloat (Finite (1 / 2)))) =
     Inl (ValueError ''M, N must be non-negative, and N >= M'') \<and>
   bernoulli_beta_credible_interval uniform_ppf (Num (PyInt 3)) (Num (PyInt 5))
     (PyInt 0) (PyInt 1) (Num (PyFloat (Finite (1 / 2)))) =
     Inl (ValueError ''Cannot have negative prior parameters!'') \<and>
   bernoulli_beta_credible_interval uniform_ppf (Num (PyInt 3)) (Num (PyInt 5))
     (PyInt 1) (PyInt 1) (Obj ''str'') =
     Inl (TypeError ''C must be numeric'') \<and>
   bernoulli_beta_credible_interval uniform_ppf (Num (PyInt 3)) (Num (PyInt 5))
     (PyInt 1) (PyInt 1) (Num (PyInt 7)) =
     Inl (TypeError ''C must be numeric'') \<and>
   bernoulli_beta_credible_interval uniform_ppf (Num (PyInt 3)) (Num (PyInt 5))
     (PyInt 1) (PyInt 1) (Num (PyFloat (Finite (3 / 2)))) =
     Inl (ValueError ''C must be interpretable as a probability'') \<and>
   bernoulli_beta_credible_interval uniform_ppf (Num (PyInt 3)) (Num (PyInt 5))
     (PyInt 1) (PyInt 1) (Num (PyFloat NaN)) = Inr (NaN, NaN)"
  using
    credible_interval_errors [where M = "Num (PyFloat (Finite (5 / 2)))" and N = "Num (PyInt 5)"
      and ppf = uniform_ppf and a = "PyInt 1" and b = "PyInt 1"
      and C = "Num (PyFloat (Finite (1 / 2)))" and m = "- 1" and n = 5]
    credible_interval_errors [where M = "Num (PyInt 3)" and N = "Num (PyFloat (Finite 5))"
      and ppf = uniform_ppf and a = "PyInt 1" and b = "PyInt 1"
      and C = "Num (PyFloat (Finite (1 / 2)))" and m = 5 and n = 3]
    credible_interval_errors [where M = "Obj ''str''" and N = "Num (PyInt 5)"
      and ppf = uniform_ppf and a = "PyInt 0" and b = "PyInt 1"
      and C = "Num (PyFloat (Finite (1 / 2)))" and m = 3 and n = 5]
    credible_interval_errors [where M = "Obj ''str''" and N = "Num (PyInt 5)"
      and ppf = uniform_ppf and a = "PyInt 1" and b = "PyInt 1"
      and C = "Obj ''str''" and m = 3 and n = 5 and c = "Finite (3 / 2)"
      and ?p0.0 = "PyInt 4" and ?p1.0 = "PyInt 3"]
    credible_interval_errors [where M = "Obj ''str''" and N = "Num (PyInt 5)"
      and ppf = uniform_ppf and a = "PyInt 1" and b = "PyInt 1"
      and C = "Num (PyInt 7)" and m = 3 and n = 5]
  by (simp add: py_le_def post_int_priors uniform_ppf_def)

text \<open>
  C3 as stated fails: the exceptions are not of a single class. A call with M = 2.5
  raises a TypeError and a call with M = -1 raises a ValueError.
\<close>

theorem single_error_kind_counterexample:
  "raised_class (bernoulli_beta_credible_interval uniform_ppf (Num (PyFloat (Finite (5 / 2))))
     (Num (PyInt 5)) (PyInt 1) (PyInt 1) (Num (PyFloat (Finite (1 / 2))))) = Some ''TypeError'' \<and>
   raised_class (bernoulli_beta_credible_interval uniform_ppf (Num (PyInt (- 1)))
     (Num (PyInt 5)) (PyInt 1) (PyInt 1) (Num (PyFloat (Finite (1 / 2))))) = Some ''ValueError'' \<and>
   ''TypeError'' \<noteq> ''ValueError''"
  by (simp add: raised_class_def bernoulli_beta_credible_interval_def error_checking_def)

text \<open>
  C4, as the code has it. Given int M, N with 0 <= M <= N, positive prior parameters
  and a posterior computation that does not overflow, the function raises the
  TypeError "C must be numeric" exactly when C is not of type float, the ints 0 and 1
  included; it raises the ValueError "C must be interpretable as a probability" exactly
  when C is a float with C < 0 or C > 1; and it returns the pair of the library's
  values exactly when C is a float with neither C < 0 nor C > 1, which is every float
  in [0, 1] and NaN.
\<close>

theorem credible_interval_C_check:
  assumes "0 \<le> M" "M \<le> N" "py_lt (PyInt 0) alpha_prior" "py_lt (PyInt 0) beta_prior"
    and "post (Num (PyInt M)) (Num (PyInt N)) alpha_prior beta_prior = Inr p"
  shows
    "(bernoulli_beta_credible_interval ppf (Num (PyInt M)) (Num (PyInt N))
        alpha_prior beta_prior C = Inl (TypeError ''C must be numeric'')
      \<longleftrightarrow> \<not> type_is_float C) \<and>
     (bernoulli_beta_credible_interval ppf (Num (PyInt M)) (Num (PyInt N))
        alpha_prior beta_prior C = Inl (ValueError ''C must be interpretable as a probability'')
      \<longleftrightarrow> type_is_float C \<and>
          (fl_less (as_float C) (Finite 0) \<or> fl_less (Finite 1) (as_float C))) \<and>
     ((\<exists>lower upper. bernoulli_beta_credible_interval ppf (Num (PyInt M)) (Num (PyInt N))
        alpha_prior beta_prior C = Inr (lower, upper))
      \<longleftrightarrow> type_is_float C \<and>
          \<not> fl_less (as_float C) (Finite 0) \<and> \<not> fl_less (Finite 1) (as_float C))"
  using assms positive_not_le [OF assms(3)] positive_not_le [OF assms(4)]
  by (auto simp add: bernoulli_beta_credible_interval_def error_checking_def py_lt_def Let_def)

theorem credible_interval_C_check_witness:
  "bernoulli_beta_credible_interval uniform_ppf (Num (PyInt 310)) (Num (PyInt 1126))
     (PyInt 1) (PyInt 1) (Num (PyInt 0)) = Inl (TypeError ''C must be numeric'') \<and>
   bernoulli_beta_credible_interval uniform_ppf (Num (PyInt 310)) (Num (PyInt 1126))
     (PyInt 1) (PyInt 1) (Num (PyFloat (Finite (3 / 2)))) =
     Inl (ValueError ''C must be interpretable as a probability'') \<and>
   (\<exists>lower upper. bernoulli_beta_credible_interval uniform_ppf (Num (PyInt 310))
     (Num (PyInt 1126)) (PyInt 1) (PyInt 1) (Num (PyFloat (Finite 1))) = Inr (lower, upper))"
proof -
  have pos: "py_lt (PyInt 0) (PyInt 1)" by (simp add: py_lt_def)
  have le: "(0::int) \<le> 310" "(310::int) \<le> 1126" by simp_all
  note t = credible_interval_C_check [OF le pos pos post_int_priors, where ppf = uniform_ppf]
  from t [of "Num (PyInt 0)"] t [of "Num (PyFloat (Finite (3 / 2)))"]
       t [of "Num (PyFloat (Finite 1))"]
  show ?thesis by simp
qed

text \<open>
  C4 as stated fails: the call \<^verbatim>\<open>bernoulli_beta_credible_interval(310, 1126, C=1)\<close>,
  with the int 1 for C, raises the TypeError "C must be numeric": the test is
  \<^verbatim>\<open>type(C) is not float\<close>, and the type of 1 is \<^verbatim>\<open>int\<close>.
\<close>

theorem credible_interval_rejects_int_C:
  "bernoulli_beta_credible_interval uniform_ppf (Num (PyInt 310)) (Num (PyInt 1126))
     (PyInt 1) (PyInt 1) (Num (PyInt 1)) = Inl (TypeError ''C must be numeric'')"
  by (simp add: bernoulli_beta_credible_interval_def error_checking_def py_le_def)

section \<open>Width and boundary\<close>

text \<open>
  C5, as the code has it. For fixed valid M, N and prior parameters for which the
  posterior parameters that the function computes are finite and positive, and floats
  0 <= C1 < C2 <= 1, both calls return a pair of numbers and the width upper - lower
  at C1 is at most the width at C2, as exact numbers and as the floats that
  \<^verbatim>\<open>upper - lower\<close> computes, when the library's quantile function is monotone in its
  probability argument.
\<close>

theorem credible_interval_width_monotone:
  assumes "quantile_monotone ppf"
    and "0 \<le> M" "M \<le> N" "py_lt (PyInt 0) alpha_prior" "py_lt (PyInt 0) beta_prior"
    and "posterior_ok (Num (PyInt M)) (Num (PyInt N)) alpha_prior beta_prior"
    and "0 \<le> C1" "C1 < C2" "C2 \<le> 1"
  shows "\<exists>lower1 upper1 lower2 upper2.
           bernoulli_beta_credible_interval ppf (Num (PyInt M)) (Num (PyInt N))
             alpha_prior beta_prior (Num (PyFloat (Finite C1))) =
             Inr (Finite lower1, Finite upper1) \<and>
           bernoulli_beta_credible_interval ppf (Num (PyInt M)) (Num (PyInt N))
             alpha_prior beta_prior (Num (PyFloat (Finite C2))) =
             Inr (Finite lower2, Finite upper2) \<and>
           upper1 - lower1 \<le> upper2 - lower2 \<and>
           fl_le (fsub (Finite upper1) (Finite lower1)) (fsub (Finite upper2) (Finite lower2))"
proof -
  from assms(6) obtain p0 p1
    where p: "post (Num (PyInt M)) (Num (PyInt N)) alpha_prior beta_prior = Inr (p0, p1)"
      and ok: "shape_ok p0" "shape_ok p1"
    by (auto simp add: posterior_ok_def split: sum.splits)
  have c1: "0 \<le> C1" "C1 \<le> 1" and c2: "0 \<le> C2" "C2 \<le> 1" and c12: "C1 \<le> C2"
    using assms(7-9) by simp_all
  let ?t1 = "tail_value C1" and ?u1 = "upper_value C1"
  let ?t2 = "tail_value C2" and ?u2 = "upper_value C2"
  note b1 = tail_value_bounds [OF c1] and b2 = tail_value_bounds [OF c2]
  note m = tail_value_antimono [OF c1(1) c12 c2(2)]
  have lo_t: "0 \<le> ?t2" "?t2 \<le> ?t1" "?t1 \<le> 1" using b1 b2 m by simp_all
  have mid_t: "0 \<le> ?t1" "?t1 \<le> ?u1" "?u1 \<le> 1" using b1 by simp_all
  have hi_t: "0 \<le> ?u1" "?u1 \<le> ?u2" "?u2 \<le> 1" using b1 b2 m by simp_all
  from assms(1) ok lo_t obtain l2 l1
    where lo: "ppf (Finite ?t2) p0 p1 = Finite l2" "ppf (Finite ?t1) p0 p1 = Finite l1" "l2 \<le> l1"
    unfolding quantile_monotone_def by blast
  from assms(1) ok mid_t obtain l1' x1
    where mid: "ppf (Finite ?t1) p0 p1 = Finite l1'" "ppf (Finite ?u1) p0 p1 = Finite x1" "l1' \<le> x1"
    unfolding quantile_monotone_def by blast
  from assms(1) ok hi_t obtain x1' x2
    where hi: "ppf (Finite ?u1) p0 p1 = Finite x1'" "ppf (Finite ?u2) p0 p1 = Finite x2" "x1' \<le> x2"
    unfolding quantile_monotone_def by blast
  have same: "l1' = l1" "x1' = x1" using lo(2) mid(1) mid(2) hi(1) by simp_all
  have w0: "0 \<le> x1 + - l1" using mid(3) same by simp
  have w: "x1 + - l1 \<le> x2 + - l2" using lo(3) hi(3) same by simp
  have fw: "fl_le (fsub (Finite x1) (Finite l1)) (fsub (Finite x2) (Finite l2))"
    using to_float_mono [OF w0 w] by (simp add: fsub_def)
  have r1: "bernoulli_beta_credible_interval ppf (Num (PyInt M)) (Num (PyInt N))
             alpha_prior beta_prior (Num (PyFloat (Finite C1))) = Inr (Finite l1, Finite x1)"
    using credible_interval_valid [OF assms(2-5) c1 p, of ppf] lo(2) mid(2) by simp
  have r2: "bernoulli_beta_credible_interval ppf (Num (PyInt M)) (Num (PyInt N))
             alpha_prior beta_prior (Num (PyFloat (Finite C2))) = Inr (Finite l2, Finite x2)"
    using credible_interval_valid [OF assms(2-5) c2 p, of ppf] lo(1) hi(2) by simp
  from r1 r2 w fw show ?thesis by auto
qed

theorem credible_interval_width_monotone_witness:
  "\<exists>lower1 upper1 lower2 upper2.
     bernoulli_beta_credible_interval uniform_ppf (Num (PyInt 3)) (Num (PyInt 5))
       (PyFloat (Finite (1 / 2))) (PyFloat (Finite (1 / 2))) (Num (PyFloat (Finite (1 / 2)))) =
       Inr (Finite lower1, Finite upper1) \<and>
     bernoulli_beta_credible_interval uniform_ppf (Num (PyInt 3)) (Num (PyInt 5))
       (PyFloat (Finite (1 / 2))) (PyFloat (Finite (1 / 2))) (Num (PyFloat (Finite (3 / 4)))) =
       Inr (Finite lower2, Finite upper2) \<and>
     upper1 - lower1 \<le> upper2 - lower2 \<and>
     fl_le (fsub (Finite upper1) (Finite lower1)) (fsub (Finite upper2) (Finite lower2))"
  by (rule credible_interval_width_monotone [OF uniform_ppf_monotone])
    (simp_all add: py_lt_def posterior_ok_def post_halves)

text \<open>
  C5 as stated fails: with M = N = 2^1024 and a = b = 1.0, all valid, the sum
  \<^verbatim>\<open>a + M\<close> raises an OverflowError for C = 0.5 and for C = 0.75, so there is no
  interval and no width at either.
\<close>

theorem width_overflow_counterexample:
  "bernoulli_beta_credible_interval uniform_ppf (Num (PyInt (2 ^ 1024))) (Num (PyInt (2 ^ 1024)))
     (PyFloat (Finite 1)) (PyFloat (Finite 1)) (Num (PyFloat (Finite (1 / 2)))) =
     Inl (OverflowError ''int too large to convert to float'') \<and>
   bernoulli_beta_credible_interval uniform_ppf (Num (PyInt (2 ^ 1024))) (Num (PyInt (2 ^ 1024)))
     (PyFloat (Finite 1)) (PyFloat (Finite 1)) (Num (PyFloat (Finite (3 / 4)))) =
     Inl (OverflowError ''int too large to convert to float'')"
proof -
  have big: "(0::int) \<le> 2 ^ 1024" "(2::int) ^ 1024 \<le> 2 ^ 1024" by simp_all
  have pos: "py_lt (PyInt 0) (PyFloat (Finite 1))" by (simp add: py_lt_def)
  note e = credible_interval_post_error [OF big pos pos _ _ post_float_overflow [OF big(2)],
      where ppf = uniform_ppf]
  have "bernoulli_beta_credible_interval uniform_ppf (Num (PyInt (2 ^ 1024)))
      (Num (PyInt (2 ^ 1024))) (PyFloat (Finite 1)) (PyFloat (Finite 1))
      (Num (PyFloat (Finite (1 / 2)))) = Inl (OverflowError ''int too large to convert to float'')"
    by (rule e) simp_all
  moreover have "bernoulli_beta_credible_interval uniform_ppf (Num (PyInt (2 ^ 1024)))
      (Num (PyInt (2 ^ 1024))) (PyFloat (Finite 1)) (PyFloat (Finite 1))
      (Num (PyFloat (Finite (3 / 4)))) = Inl (OverflowError ''int too large to convert to float'')"
    by (rule e) simp_all
  ultimately show ?thesis by (rule conjI)
qed




section \<open>The simulation\<close>







text \<open>
  C9, as the code has it. The cells check neither num_samples nor the parameters: the
  first thing they do is draw. The comparison ends in an error exactly when one of the
  two calls of the sampler raises, and the error is the sampler's; when the sampler
  returns two empty arrays, as for num_samples = 0, the result is NaN.
\<close>

theorem comparison_raises_only_from_sampler:
  "(posterior_comparison rvs A B num_samples g = Inl e \<longleftrightarrow>
      rvs (fst A) (snd A) num_samples g = Inl e \<or>
      (\<exists>S_A g1. rvs (fst A) (snd A) num_samples g = Inr (S_A, g1) \<and>
                 rvs (fst B) (snd B) num_samples g1 = Inl e)) \<and>
   (rvs (fst A) (snd A) num_samples g = Inr ([], g1) \<and>
    rvs (fst B) (snd B) num_samples g1 = Inr ([], g2) \<longrightarrow>
      posterior_comparison rvs A B num_samples g = Inr (None, g2))"
  by (auto simp add: posterior_comparison_def trial_mean_def trial_def
      split: sum.splits prod.splits)

theorem comparison_raises_only_from_sampler_witness:
  "posterior_comparison tape_rvs (111, 411) (147, 369) 0 [1 / 5, 3 / 10] =
     Inr (None, [1 / 5, 3 / 10])"
  using comparison_raises_only_from_sampler
    [of tape_rvs "(111, 411)" "(147, 369)" 0 "[1 / 5, 3 / 10]" undefined
        "[1 / 5, 3 / 10]" "[1 / 5, 3 / 10]"]
  by (simp add: tape_rvs_def)

text \<open>
  C9 as stated fails: with num_samples = 0 the comparison of Beta(111, 411) and
  Beta(147, 369) returns NaN and raises nothing.
\<close>

theorem comparison_no_validation_counterexample:
  "posterior_comparison tape_rvs (111, 411) (147, 369) 0 [] = Inr (None, [])"
  by (simp add: posterior_comparison_def tape_rvs_def trial_mean_def trial_def)

section \<open>Default arguments\<close>

text \<open>
  C10. A call that gives M and N only is the call with a = 1, b = 1 and C = 0.95;
  for ints 0 <= M <= N it returns the library's quantiles for the shape parameters
  1 + M and 1 + N - M, the posterior of the uniform prior, at the probability
  \<^verbatim>\<open>(1 - .95)/2\<close>, which is the double 0.025000000000000022, and at 1 minus that,
  which is the double 0.975.
\<close>

theorem credible_interval_defaults:
  "call_bernoulli_beta_credible_interval ppf M N None None None =
     call_bernoulli_beta_credible_interval ppf M N
       (Some (PyInt 1)) (Some (PyInt 1)) (Some (Num (PyFloat (to_float (95 / 100))))) \<and>
   (0 \<le> m \<and> m \<le> n \<longrightarrow>
     call_bernoulli_beta_credible_interval ppf (Num (PyInt m)) (Num (PyInt n))
       None None None =
       Inr (ppf (Finite (225179981368525 / 9007199254740992)) (PyInt (1 + m)) (PyInt (1 + n - m)),
            ppf (to_float (975 / 1000)) (PyInt (1 + m)) (PyInt (1 + n - m))))"
proof (intro conjI impI)
  show "call_bernoulli_beta_credible_interval ppf M N None None None =
     call_bernoulli_beta_credible_interval ppf M N
       (Some (PyInt 1)) (Some (PyInt 1)) (Some (Num (PyFloat (to_float (95 / 100)))))"
    by (simp add: call_bernoulli_beta_credible_interval_def)
next
  assume h: "0 \<le> m \<and> m \<le> n"
  have pos: "py_lt (PyInt 0) (PyInt 1)" by (simp add: py_lt_def)
  have c: "(0::real) \<le> 4278419646001971 / 4503599627370496"
          "(4278419646001971::real) / 4503599627370496 \<le> 1" by simp_all
  have "bernoulli_beta_credible_interval ppf (Num (PyInt m)) (Num (PyInt n))
          (PyInt 1) (PyInt 1) (Num (PyFloat (Finite (4278419646001971 / 4503599627370496)))) =
        Inr (ppf (Finite (tail_value (4278419646001971 / 4503599627370496)))
               (PyInt (1 + m)) (PyInt (1 + n - m)),
             ppf (Finite (upper_value (4278419646001971 / 4503599627370496)))
               (PyInt (1 + m)) (PyInt (1 + n - m)))"
    using h by (intro credible_interval_valid pos c post_int_priors) simp_all
  then show "call_bernoulli_beta_credible_interval ppf (Num (PyInt m)) (Num (PyInt n))
       None None None =
       Inr (ppf (Finite (225179981368525 / 9007199254740992)) (PyInt (1 + m)) (PyInt (1 + n - m)),
            ppf (to_float (975 / 1000)) (PyInt (1 + m)) (PyInt (1 + n - m)))"
    unfolding call_bernoulli_beta_credible_interval_def option.case to_float_95 to_float_975
      tail_value_95 upper_value_95 .
qed

theorem credible_interval_defaults_witness:
  "call_bernoulli_beta_credible_interval uniform_ppf (Num (PyInt 310)) (Num (PyInt 1126))
     None None None =
     Inr (Finite (225179981368525 / 9007199254740992),
          Finite (8782019273372467 / 9007199254740992))"
proof -
  have "0 \<le> (310::int) \<and> (310::int) \<le> 1126" by simp
  with credible_interval_defaults
    [where ppf = uniform_ppf and m = 310 and n = 1126, THEN conjunct2]
  have "call_bernoulli_beta_credible_interval uniform_ppf (Num (PyInt 310)) (Num (PyInt 1126))
     None None None =
     Inr (uniform_ppf (Finite (225179981368525 / 9007199254740992)) (PyInt (1 + 310))
            (PyInt (1 + 1126 - 310)),
          uniform_ppf (to_float (975 / 1000)) (PyInt (1 + 310)) (PyInt (1 + 1126 - 310)))"
    by (rule mp)
  then show ?thesis unfolding to_float_975 by (simp add: uniform_ppf_def)
qed

end
